theory Spec2Isabelle
  imports Main "HOL-Library.Word"
begin

unbundle bit_operations_syntax

section \<open>The CHIP-8 machine of chip8.h\<close>

text \<open>
  The class \<open>Chip8\<close> of \<^verbatim>\<open>chip8.h\<close> becomes a record with one field per member.
  Each \<^verbatim>\<open>std::array\<close> is a store from indices to values; the size of the array is
  not part of the store, so every access whose index the code does not keep in range
  by construction is guarded in the model and yields a \<open>fault\<close> (the undefined
  behaviour of an out-of-bounds \<^verbatim>\<open>operator[]\<close>) instead of a state.
  \<^verbatim>\<open>uint8_t\<close> is \<open>8 word\<close>, \<^verbatim>\<open>uint16_t\<close> is \<open>16 word\<close>.
\<close>

type_synonym u8 = "8 word"
type_synonym u16 = "16 word"

datatype fault = MemoryOutOfBounds | StackOutOfBounds | KeyOutOfBounds

record chip8 =
  gfx :: "nat \<Rightarrow> bool"
  keys :: "nat \<Rightarrow> bool"
  drawFlag :: bool
  beepFlag :: bool
  memory :: "nat \<Rightarrow> u8"
  V :: "nat \<Rightarrow> u8"
  I :: u16
  PC :: u16
  stack :: "nat \<Rightarrow> u16"
  sp :: u8
  delay_timer :: u8
  sound_timer :: u8

subsection \<open>initFont, reset, the constructor\<close>

definition font :: "u8 list" where
  "font =
    [0xF0, 0x90, 0x90, 0x90, 0xF0,
     0x20, 0x60, 0x20, 0x20, 0x70,
     0xF0, 0x10, 0xF0, 0x80, 0xF0,
     0xF0, 0x10, 0xF0, 0x10, 0xF0,
     0x90, 0x90, 0xF0, 0x10, 0x10,
     0xF0, 0x80, 0xF0, 0x10, 0xF0,
     0xF0, 0x80, 0xF0, 0x90, 0xF0,
     0xF0, 0x10, 0x20, 0x40, 0x40,
     0xF0, 0x90, 0xF0, 0x90, 0xF0,
     0xF0, 0x90, 0xF0, 0x10, 0xF0,
     0xF0, 0x90, 0xF0, 0x90, 0x90,
     0xE0, 0x90, 0xE0, 0x90, 0xE0,
     0xF0, 0x80, 0x80, 0x80, 0xF0,
     0xE0, 0x90, 0x90, 0x90, 0xE0,
     0xF0, 0x80, 0xF0, 0x80, 0xF0,
     0xF0, 0x80, 0xF0, 0x80, 0x80]"

text \<open>
  \<^verbatim>\<open>for (size_t i = 0; i < font.size(); ++i) memory[0x050 + i] = font[i];\<close>
  The loop walks the table from the front; \<open>write_bytes a bs m\<close> stores the bytes
  \<open>bs\<close> at the consecutive addresses \<open>a, a + 1, ...\<close>. The same function is the
  \<^verbatim>\<open>file.read(&memory[0x200], size)\<close> of loadROM.
\<close>

fun write_bytes :: "nat \<Rightarrow> u8 list \<Rightarrow> (nat \<Rightarrow> u8) \<Rightarrow> (nat \<Rightarrow> u8)" where
  "write_bytes a [] m = m"
| "write_bytes a (b # bs) m = write_bytes (a + 1) bs (m(a := b))"

definition initFont :: "chip8 \<Rightarrow> chip8" where
  "initFont s = s\<lparr>memory := write_bytes 0x050 font (memory s)\<rparr>"

definition reset :: "chip8 \<Rightarrow> chip8" where
  "reset s =
     initFont (s\<lparr>memory := (\<lambda>_. 0), V := (\<lambda>_. 0), gfx := (\<lambda>_. False),
                 keys := (\<lambda>_. False), stack := (\<lambda>_. 0),
                 I := 0, PC := 0x200, sp := 0, delay_timer := 0, sound_timer := 0,
                 drawFlag := False, beepFlag := False\<rparr>)"

text \<open>The constructor: the default member initialisers of chip8.h, then initFont.\<close>

definition Chip8 :: chip8 where
  "Chip8 =
     initFont \<lparr>gfx = (\<lambda>_. False), keys = (\<lambda>_. False), drawFlag = False, beepFlag = False,
               memory = (\<lambda>_. 0), V = (\<lambda>_. 0), I = 0, PC = 0x200, stack = (\<lambda>_. 0),
               sp = 0, delay_timer = 0, sound_timer = 0\<rparr>"

subsection \<open>loadROM\<close>

text \<open>
  The file is the argument: \<open>None\<close> when it cannot be opened, otherwise its bytes.
  The result is the returned \<^verbatim>\<open>bool\<close> and the machine left behind.
\<close>

definition loadROM :: "u8 list option \<Rightarrow> chip8 \<Rightarrow> bool \<times> chip8" where
  "loadROM file s =
     (let s1 = reset s in
      case file of
        None \<Rightarrow> (False, s1)
      | Some bytes \<Rightarrow>
          if length bytes > 4096 - 0x200 then (False, s1)
          else (True, s1\<lparr>memory := write_bytes 0x200 bytes (memory s1)\<rparr>))"

subsection \<open>decrementTimers\<close>

definition decrementTimers :: "chip8 \<Rightarrow> chip8" where
  "decrementTimers s =
     (let s1 = (if delay_timer s > 0 then s\<lparr>delay_timer := delay_timer s - 1\<rparr> else s) in
      if sound_timer s1 > 0
      then s1\<lparr>sound_timer := sound_timer s1 - 1, beepFlag := True\<rparr>
      else s1\<lparr>beepFlag := False\<rparr>)"

text \<open>\<open>ticks n\<close>: the host calling decrementTimers \<open>n\<close> times in a row.\<close>

primrec ticks :: "nat \<Rightarrow> chip8 \<Rightarrow> chip8" where
  "ticks 0 s = s"
| "ticks (Suc n) s = ticks n (decrementTimers s)"

subsection \<open>emulateCycle: fetch and decode\<close>

text \<open>
  \<^verbatim>\<open>uint16_t opcode = (memory[PC] << 8) | memory[PC + 1];\<close>
  \<^verbatim>\<open>PC + 1\<close> is computed in \<^verbatim>\<open>int\<close>, so it does not wrap at 16 bits.
\<close>

definition fetch :: "chip8 \<Rightarrow> fault + u16" where
  "fetch s =
     (if unat (PC s) + 1 < 4096
      then Inr (push_bit 8 (ucast (memory s (unat (PC s)))) OR
                ucast (memory s (unat (PC s) + 1)))
      else Inl MemoryOutOfBounds)"

definition opcode_x :: "u16 \<Rightarrow> nat" where
  "opcode_x opcode = unat (drop_bit 8 (opcode AND 0x0F00))"

definition opcode_y :: "u16 \<Rightarrow> nat" where
  "opcode_y opcode = unat (drop_bit 4 (opcode AND 0x00F0))"

definition opcode_n :: "u16 \<Rightarrow> u8" where
  "opcode_n opcode = ucast (opcode AND 0x000F)"

definition opcode_nn :: "u16 \<Rightarrow> u8" where
  "opcode_nn opcode = ucast (opcode AND 0x00FF)"

definition opcode_nnn :: "u16 \<Rightarrow> u16" where
  "opcode_nnn opcode = opcode AND 0x0FFF"

definition skip :: "bool \<Rightarrow> chip8 \<Rightarrow> chip8" where
  "skip c s = (if c then s\<lparr>PC := PC s + 2\<rparr> else s)"

subsection \<open>Class 0: CLS and RET; class 2: CALL\<close>

definition op_CLS :: "chip8 \<Rightarrow> chip8" where
  "op_CLS s = s\<lparr>gfx := (\<lambda>_. False), drawFlag := True\<rparr>"

text \<open>\<^verbatim>\<open>--sp; PC = stack[sp];\<close> with \<^verbatim>\<open>sp\<close> a \<^verbatim>\<open>uint8_t\<close>: 0 wraps to 255.\<close>

definition op_RET :: "chip8 \<Rightarrow> fault + chip8" where
  "op_RET s =
     (let s1 = s\<lparr>sp := sp s - 1\<rparr> in
      if unat (sp s1) < 16 then Inr (s1\<lparr>PC := stack s1 (unat (sp s1))\<rparr>)
      else Inl StackOutOfBounds)"

text \<open>\<^verbatim>\<open>stack[sp] = PC; ++sp; PC = nnn;\<close>\<close>

definition op_CALL :: "u16 \<Rightarrow> chip8 \<Rightarrow> fault + chip8" where
  "op_CALL nnn s =
     (if unat (sp s) < 16
      then Inr (s\<lparr>stack := (stack s)(unat (sp s) := PC s), sp := sp s + 1, PC := nnn\<rparr>)
      else Inl StackOutOfBounds)"

subsection \<open>Class 8: the ALU group\<close>

definition op_ADD :: "nat \<Rightarrow> nat \<Rightarrow> chip8 \<Rightarrow> chip8" where
  "op_ADD x y s =
     (let sum = (ucast (V s x) + ucast (V s y) :: u16);
          s1 = s\<lparr>V := (V s)(x := ucast (sum AND 0xFF))\<rparr>
      in s1\<lparr>V := (V s1)(0xF := (if sum > 0xFF then 1 else 0))\<rparr>)"

definition op_SUB :: "nat \<Rightarrow> nat \<Rightarrow> chip8 \<Rightarrow> chip8" where
  "op_SUB x y s =
     (let s1 = s\<lparr>V := (V s)(0xF := (if V s x \<ge> V s y then 1 else 0))\<rparr>
      in s1\<lparr>V := (V s1)(x := V s1 x - V s1 y)\<rparr>)"

definition op_SHR :: "nat \<Rightarrow> chip8 \<Rightarrow> chip8" where
  "op_SHR x s =
     (let s1 = s\<lparr>V := (V s)(0xF := V s x AND 0x01)\<rparr>
      in s1\<lparr>V := (V s1)(x := drop_bit 1 (V s1 x))\<rparr>)"

definition op_SUBN :: "nat \<Rightarrow> nat \<Rightarrow> chip8 \<Rightarrow> chip8" where
  "op_SUBN x y s =
     (let s1 = s\<lparr>V := (V s)(0xF := (if V s y \<ge> V s x then 1 else 0))\<rparr>
      in s1\<lparr>V := (V s1)(x := V s1 y - V s1 x)\<rparr>)"

definition op_SHL :: "nat \<Rightarrow> chip8 \<Rightarrow> chip8" where
  "op_SHL x s =
     (let s1 = s\<lparr>V := (V s)(0xF := drop_bit 7 (V s x) AND 0x01)\<rparr>
      in s1\<lparr>V := (V s1)(x := push_bit 1 (V s1 x))\<rparr>)"

definition op_ALU :: "u8 \<Rightarrow> nat \<Rightarrow> nat \<Rightarrow> chip8 \<Rightarrow> chip8" where
  "op_ALU n x y s =
     (if n = 0x0 then s\<lparr>V := (V s)(x := V s y)\<rparr>
      else if n = 0x1 then s\<lparr>V := (V s)(x := V s x OR V s y)\<rparr>
      else if n = 0x2 then s\<lparr>V := (V s)(x := V s x AND V s y)\<rparr>
      else if n = 0x3 then s\<lparr>V := (V s)(x := V s x XOR V s y)\<rparr>
      else if n = 0x4 then op_ADD x y s
      else if n = 0x5 then op_SUB x y s
      else if n = 0x6 then op_SHR x s
      else if n = 0x7 then op_SUBN x y s
      else if n = 0xE then op_SHL x s
      else s)"

subsection \<open>Class D: DRW\<close>

text \<open>
  The inner loop, \<^verbatim>\<open>for (uint8_t col = 0; col < 8; ++col)\<close>:
  a set sprite bit is drawn at the linear index \<^verbatim>\<open>(vy + row) * 64 + (vx + col)\<close>
  when that index is below \<^verbatim>\<open>64 * 32\<close>.
\<close>

function draw_cols :: "u8 \<Rightarrow> nat \<Rightarrow> nat \<Rightarrow> nat \<Rightarrow> nat \<Rightarrow> chip8 \<Rightarrow> chip8" where
  "draw_cols sprite vx vy row col s =
     (if col < 8 then
        (if sprite AND drop_bit col 0x80 \<noteq> 0 then
           (let idx = (vy + row) * 64 + (vx + col) in
            if idx < 64 * 32 then
              (let s1 = (if gfx s idx then s\<lparr>V := (V s)(0xF := 1)\<rparr> else s)
               in draw_cols sprite vx vy row (col + 1)
                    (s1\<lparr>gfx := (gfx s1)(idx := (gfx s1 idx \<noteq> True))\<rparr>))
            else draw_cols sprite vx vy row (col + 1) s)
         else draw_cols sprite vx vy row (col + 1) s)
      else s)"
  by pat_completeness auto
termination
  by (relation "measure (\<lambda>(sprite, vx, vy, row, col, s). 8 - col)") auto

declare draw_cols.simps [simp del]

text \<open>
  The outer loop, \<^verbatim>\<open>for (uint8_t row = 0; row < n; ++row)\<close>, reading
  \<^verbatim>\<open>memory[I + row]\<close> (\<^verbatim>\<open>I + row\<close> is an \<^verbatim>\<open>int\<close>: no wrap at 16 bits).
\<close>

function draw_rows :: "nat \<Rightarrow> nat \<Rightarrow> nat \<Rightarrow> nat \<Rightarrow> chip8 \<Rightarrow> fault + chip8" where
  "draw_rows n vx vy row s =
     (if row < n then
        (if unat (I s) + row < 4096
         then draw_rows n vx vy (row + 1)
                (draw_cols (memory s (unat (I s) + row)) vx vy row 0 s)
         else Inl MemoryOutOfBounds)
      else Inr s)"
  by pat_completeness auto
termination
  by (relation "measure (\<lambda>(n, vx, vy, row, s). n - row)") auto

declare draw_rows.simps [simp del]

text \<open>
  \<^verbatim>\<open>V[0xF] = 0; uint8_t vx = V[x] % 64; uint8_t vy = V[y] % 32;\<close>
  then the loops, then \<^verbatim>\<open>drawFlag = true\<close>. The origin is read after VF has been
  cleared.
\<close>

definition op_DRW :: "nat \<Rightarrow> nat \<Rightarrow> u8 \<Rightarrow> chip8 \<Rightarrow> fault + chip8" where
  "op_DRW x y n s =
     (let s1 = s\<lparr>V := (V s)(0xF := 0)\<rparr>;
          vx = unat (V s1 x mod 64);
          vy = unat (V s1 y mod 32)
      in case draw_rows (unat n) vx vy 0 s1 of
           Inl e \<Rightarrow> Inl e
         | Inr s2 \<Rightarrow> Inr (s2\<lparr>drawFlag := True\<rparr>))"

subsection \<open>Class E: the key skips\<close>

definition op_SKP :: "u8 \<Rightarrow> nat \<Rightarrow> chip8 \<Rightarrow> fault + chip8" where
  "op_SKP nn x s =
     (if nn = 0x9E then
        (if unat (V s x) < 16 then Inr (skip (keys s (unat (V s x))) s)
         else Inl KeyOutOfBounds)
      else if nn = 0xA1 then
        (if unat (V s x) < 16 then Inr (skip (\<not> keys s (unat (V s x))) s)
         else Inl KeyOutOfBounds)
      else Inr s)"

subsection \<open>Class F\<close>

text \<open>
  Fx0A, \<^verbatim>\<open>for (uint8_t i = 0; i < 16; ++i) if (keys[i]) { V[x] = i; keyPressed = true; }\<close>
\<close>

function key_scan :: "nat \<Rightarrow> nat \<Rightarrow> bool \<Rightarrow> chip8 \<Rightarrow> bool \<times> chip8" where
  "key_scan i x keyPressed s =
     (if i < 16 then
        (if keys s i then key_scan (i + 1) x True (s\<lparr>V := (V s)(x := of_nat i)\<rparr>)
         else key_scan (i + 1) x keyPressed s)
      else (keyPressed, s))"
  by pat_completeness auto
termination
  by (relation "measure (\<lambda>(i, x, keyPressed, s). 16 - i)") auto

declare key_scan.simps [simp del]

definition op_LDK :: "nat \<Rightarrow> chip8 \<Rightarrow> chip8" where
  "op_LDK x s =
     (let (keyPressed, s1) = key_scan 0 x False s
      in if \<not> keyPressed then s1\<lparr>PC := PC s1 - 2\<rparr> else s1)"

definition op_BCD :: "nat \<Rightarrow> chip8 \<Rightarrow> fault + chip8" where
  "op_BCD x s =
     (if unat (I s) + 2 < 4096
      then Inr (s\<lparr>memory := (memory s)
                  (unat (I s) := V s x div 100,
                   unat (I s) + 1 := (V s x div 10) mod 10,
                   unat (I s) + 2 := V s x mod 10)\<rparr>)
      else Inl MemoryOutOfBounds)"

text \<open>Fx55, \<^verbatim>\<open>for (uint8_t i = 0; i <= x; ++i) memory[I + i] = V[i];\<close>\<close>

function store_regs :: "nat \<Rightarrow> nat \<Rightarrow> chip8 \<Rightarrow> fault + chip8" where
  "store_regs i x s =
     (if i \<le> x then
        (if unat (I s) + i < 4096
         then store_regs (i + 1) x (s\<lparr>memory := (memory s)(unat (I s) + i := V s i)\<rparr>)
         else Inl MemoryOutOfBounds)
      else Inr s)"
  by pat_completeness auto
termination
  by (relation "measure (\<lambda>(i, x, s). Suc x - i)") auto

declare store_regs.simps [simp del]

text \<open>Fx65, \<^verbatim>\<open>for (uint8_t i = 0; i <= x; ++i) V[i] = memory[I + i];\<close>\<close>

function load_regs :: "nat \<Rightarrow> nat \<Rightarrow> chip8 \<Rightarrow> fault + chip8" where
  "load_regs i x s =
     (if i \<le> x then
        (if unat (I s) + i < 4096
         then load_regs (i + 1) x (s\<lparr>V := (V s)(i := memory s (unat (I s) + i))\<rparr>)
         else Inl MemoryOutOfBounds)
      else Inr s)"
  by pat_completeness auto
termination
  by (relation "measure (\<lambda>(i, x, s). Suc x - i)") auto

declare load_regs.simps [simp del]

text \<open>\<^verbatim>\<open>I += x + 1;\<close> after either loop.\<close>

definition bump_I :: "nat \<Rightarrow> chip8 \<Rightarrow> chip8" where
  "bump_I x s = s\<lparr>I := I s + (of_nat x + 1)\<rparr>"

definition op_F :: "u8 \<Rightarrow> nat \<Rightarrow> chip8 \<Rightarrow> fault + chip8" where
  "op_F nn x s =
     (if nn = 0x07 then Inr (s\<lparr>V := (V s)(x := delay_timer s)\<rparr>)
      else if nn = 0x0A then Inr (op_LDK x s)
      else if nn = 0x15 then Inr (s\<lparr>delay_timer := V s x\<rparr>)
      else if nn = 0x18 then Inr (s\<lparr>sound_timer := V s x\<rparr>)
      else if nn = 0x1E then Inr (s\<lparr>I := I s + ucast (V s x)\<rparr>)
      else if nn = 0x29 then Inr (s\<lparr>I := 0x050 + ucast (V s x AND 0x0F) * 5\<rparr>)
      else if nn = 0x33 then op_BCD x s
      else if nn = 0x55 then
        (case store_regs 0 x s of Inl e \<Rightarrow> Inl e | Inr s1 \<Rightarrow> Inr (bump_I x s1))
      else if nn = 0x65 then
        (case load_regs 0 x s of Inl e \<Rightarrow> Inl e | Inr s1 \<Rightarrow> Inr (bump_I x s1))
      else Inr s)"

subsection \<open>emulateCycle\<close>

text \<open>
  \<open>execute\<close> is the \<^verbatim>\<open>switch (opcode & 0xF000)\<close>, run on the machine whose PC has
  already been advanced. The byte drawn from the random generator by Cxnn is the
  argument \<open>rnd\<close>.
\<close>

definition execute :: "u8 \<Rightarrow> u16 \<Rightarrow> chip8 \<Rightarrow> fault + chip8" where
  "execute rnd opcode s =
     (let x = opcode_x opcode; y = opcode_y opcode; n = opcode_n opcode;
          nn = opcode_nn opcode; nnn = opcode_nnn opcode; cls = opcode AND 0xF000
      in
      if cls = 0x0000 then
        (if opcode = 0x00E0 then Inr (op_CLS s)
         else if opcode = 0x00EE then op_RET s
         else Inr s)
      else if cls = 0x1000 then Inr (s\<lparr>PC := nnn\<rparr>)
      else if cls = 0x2000 then op_CALL nnn s
      else if cls = 0x3000 then Inr (skip (V s x = nn) s)
      else if cls = 0x4000 then Inr (skip (V s x \<noteq> nn) s)
      else if cls = 0x5000 then Inr (skip (V s x = V s y) s)
      else if cls = 0x6000 then Inr (s\<lparr>V := (V s)(x := nn)\<rparr>)
      else if cls = 0x7000 then Inr (s\<lparr>V := (V s)(x := V s x + nn)\<rparr>)
      else if cls = 0x8000 then Inr (op_ALU n x y s)
      else if cls = 0x9000 then Inr (skip (V s x \<noteq> V s y) s)
      else if cls = 0xA000 then Inr (s\<lparr>I := nnn\<rparr>)
      else if cls = 0xB000 then Inr (s\<lparr>PC := nnn + ucast (V s 0)\<rparr>)
      else if cls = 0xC000 then Inr (s\<lparr>V := (V s)(x := rnd AND nn)\<rparr>)
      else if cls = 0xD000 then op_DRW x y n s
      else if cls = 0xE000 then op_SKP nn x s
      else if cls = 0xF000 then op_F nn x s
      else Inr s)"

definition emulateCycle :: "u8 \<Rightarrow> chip8 \<Rightarrow> fault + chip8" where
  "emulateCycle rnd s =
     (case fetch s of
        Inl e \<Rightarrow> Inl e
      | Inr opcode \<Rightarrow> execute rnd opcode (s\<lparr>PC := PC s + 2\<rparr>))"

subsection \<open>Concrete machines\<close>

text \<open>
  \<open>boot hi lo\<close> is the freshly constructed machine with the two bytes of one
  instruction stored at 0x200, where PC points.
\<close>

definition boot :: "u8 \<Rightarrow> u8 \<Rightarrow> chip8" where
  "boot hi lo = Chip8\<lparr>memory := (memory Chip8)(0x200 := hi, 0x201 := lo)\<rparr>"

text \<open>8014 with V0 = 200 and V1 = 100; 8F04 with VF = 3 and V0 = 4.\<close>

definition add_machine :: chip8 where
  "add_machine = (boot 0x80 0x14)\<lparr>V := (\<lambda>_. 0)(0 := 200, 1 := 100)\<rparr>"

definition add_xF_machine :: chip8 where
  "add_xF_machine = (boot 0x8F 0x04)\<lparr>V := (\<lambda>_. 0)(0xF := 3, 0 := 4)\<rparr>"

text \<open>80F5 (SUB V0, VF) with V0 = 10 and VF = 7.\<close>

definition sub_yF_machine :: chip8 where
  "sub_yF_machine = (boot 0x80 0xF5)\<lparr>V := (\<lambda>_. 0)(0 := 10, 0xF := 7)\<rparr>"

text \<open>F018 with V0 = 1, on a machine whose sound timer is 0 and whose beepFlag is off.\<close>

definition sound_machine :: chip8 where
  "sound_machine = (boot 0xF0 0x18)\<lparr>V := (\<lambda>_. 0)(0 := 1)\<rparr>"

text \<open>2345 (CALL 0x345) and 00EE (RET) with a chosen stack pointer.\<close>

definition call_machine :: "u8 \<Rightarrow> chip8" where
  "call_machine p = (boot 0x23 0x45)\<lparr>sp := p\<rparr>"

definition ret_machine :: "u8 \<Rightarrow> chip8" where
  "ret_machine p = (boot 0x00 0xEE)\<lparr>sp := p, stack := (\<lambda>_. 0)(0 := 0x0456)\<rparr>"

text \<open>F00A (wait for a key into V0) with a chosen keypad; V0 starts as 0xAA.\<close>

definition wait_machine :: "(nat \<Rightarrow> bool) \<Rightarrow> chip8" where
  "wait_machine ks = (boot 0xF0 0x0A)\<lparr>keys := ks, V := (\<lambda>_. 0)(0 := 0xAA)\<rparr>"

text \<open>
  A one-row draw \<open>hi lo\<close> with V0 = 10 and a chosen VF: DF01 draws at (VF, V0),
  D0F1 at (V0, VF).
\<close>

definition draw_VF_machine :: "u8 \<Rightarrow> u8 \<Rightarrow> u8 \<Rightarrow> chip8" where
  "draw_VF_machine hi lo v = (boot hi lo)\<lparr>V := (\<lambda>_. 0)(0 := 10, 0xF := v)\<rparr>"

text \<open>F255 (store V0..V2 at I) with I = 0x300.\<close>

definition store_machine :: chip8 where
  "store_machine = (boot 0xF2 0x55)\<lparr>V := (\<lambda>_. 0)(0 := 0x11, 1 := 0x22, 2 := 0x33, 3 := 0x44),
                                         I := 0x300\<rparr>"

text \<open>
  D011 (draw one row at (V0, V1)) with V0 = 60, V1 = 0 and the sprite row 0x08 at
  I = 0x300: the one set bit is column 4 of the sprite.
\<close>

definition draw_edge_machine :: chip8 where
  "draw_edge_machine =
     (boot 0xD0 0x11)\<lparr>memory := (memory (boot 0xD0 0x11))(0x300 := 0x08),
                       V := (\<lambda>_. 0)(0 := 60, 1 := 0), I := 0x300\<rparr>"

text \<open>The program 6005 7003 (LD V0, 5; ADD V0, 3), loaded into a fresh machine.\<close>

definition example_program :: chip8 where
  "example_program = snd (loadROM (Some [0x60, 0x05, 0x70, 0x03]) Chip8)"

section \<open>Auxiliary facts\<close>

subsection \<open>Words\<close>

lemma unat_u8_less: "unat (a :: u8) < 256"
proof -
  have "unat a < 2 ^ LENGTH(8)" by (rule unsigned_less)
  then show ?thesis by simp
qed

lemma unat_ucast_8_16: "unat (ucast (a :: u8) :: u16) = unat a"
  using unat_u8_less [of a]
  by (simp add: unsigned_ucast_eq take_bit_nat_eq_self)

lemma unat_sum16:
  fixes a b :: u8
  shows "unat (ucast a + ucast b :: u16) = unat a + unat b"
proof -
  have "unat (ucast a + ucast b :: u16) =
          (unat (ucast a :: u16) + unat (ucast b :: u16)) mod 2 ^ 16"
    by (simp only: unat_word_ariths len_of_numeral_defs) simp
  then show ?thesis
    using unat_u8_less [of a] unat_u8_less [of b]
    by (simp add: unat_ucast_8_16)
qed

lemma unat_low_byte:
  fixes w :: u16
  shows "unat (ucast (w AND 0xFF) :: u8) = unat w mod 256"
proof -
  have "w AND 0xFF = take_bit 8 w"
    by (simp add: take_bit_eq_mask mask_eq_exp_minus_1)
  then show ?thesis
    by (simp add: unsigned_ucast_eq unsigned_take_bit_eq take_bit_eq_mod unat_mod)
qed

lemma unat_tick: "unat (if 0 < w then w - 1 else (0::u8)) = unat w - 1"
  by (auto simp: word_gt_0 unat_minus_one)

subsection \<open>Decoding\<close>

text \<open>
  The register selectors are nibbles, so \<^verbatim>\<open>V[x]\<close> and \<^verbatim>\<open>V[y]\<close> are always inside the
  16 registers; this is why the model puts no guard on them.
\<close>

lemma opcode_x_less: "opcode_x opcode < 16"
proof -
  have "unat (opcode AND 0x0F00) \<le> unat (0x0F00 :: u16)"
    using word_and_le1 [of opcode "0x0F00"] by (simp add: word_le_nat_alt)
  then have "unat (opcode AND 0x0F00) div 2 ^ 8 \<le> 0x0F00 div 2 ^ 8"
    by (intro div_le_mono) simp
  then show ?thesis
    by (simp add: opcode_x_def drop_bit_eq_div unat_div)
qed

lemma opcode_y_less: "opcode_y opcode < 16"
proof -
  have "unat (opcode AND 0x00F0) \<le> unat (0x00F0 :: u16)"
    using word_and_le1 [of opcode "0x00F0"] by (simp add: word_le_nat_alt)
  then have "unat (opcode AND 0x00F0) div 2 ^ 4 \<le> 0x00F0 div 2 ^ 4"
    by (intro div_le_mono) simp
  then show ?thesis
    by (simp add: opcode_y_def drop_bit_eq_div unat_div)
qed

text \<open>An opcode given by its class and low nibble, or by its class and low byte.\<close>

lemma decode_low_nibble:
  fixes opcode c :: u16
  assumes "opcode AND 0xF00F = c"
  shows "opcode AND 0xF000 = c AND 0xF000" and "opcode_n opcode = ucast (c AND 0x000F)"
proof -
  have "opcode AND 0xF000 = (opcode AND 0xF00F) AND 0xF000"
    by (simp add: and.assoc)
  then show "opcode AND 0xF000 = c AND 0xF000" using assms by simp
  have "opcode AND 0x000F = (opcode AND 0xF00F) AND 0x000F"
    by (simp add: and.assoc)
  then show "opcode_n opcode = ucast (c AND 0x000F)" using assms by (simp add: opcode_n_def)
qed

lemma decode_low_byte:
  fixes opcode c :: u16
  assumes "opcode AND 0xF0FF = c"
  shows "opcode AND 0xF000 = c AND 0xF000" and "opcode_nn opcode = ucast (c AND 0x00FF)"
proof -
  have "opcode AND 0xF000 = (opcode AND 0xF0FF) AND 0xF000"
    by (simp add: and.assoc)
  then show "opcode AND 0xF000 = c AND 0xF000" using assms by simp
  have "opcode AND 0x00FF = (opcode AND 0xF0FF) AND 0x00FF"
    by (simp add: and.assoc)
  then show "opcode_nn opcode = ucast (c AND 0x00FF)" using assms by (simp add: opcode_nn_def)
qed

lemma fetch_boot: "fetch (boot hi lo) = Inr (push_bit 8 (ucast hi) OR ucast lo)"
  by (simp add: fetch_def boot_def Chip8_def initFont_def)

lemma PC_boot: "PC (boot hi lo) = 0x200"
  by (simp add: boot_def Chip8_def initFont_def)

subsection \<open>Timers\<close>

lemma decrementTimers_delay:
  "delay_timer (decrementTimers s) = (if 0 < delay_timer s then delay_timer s - 1 else 0)"
  by (auto simp: decrementTimers_def Let_def word_gt_0)

lemma decrementTimers_sound:
  "sound_timer (decrementTimers s) = (if 0 < sound_timer s then sound_timer s - 1 else 0)"
  by (auto simp: decrementTimers_def Let_def word_gt_0)

lemma ticks_delay: "unat (delay_timer (ticks n s)) = unat (delay_timer s) - n"
  by (induction n arbitrary: s) (simp_all add: decrementTimers_delay unat_tick)

lemma ticks_sound: "unat (sound_timer (ticks n s)) = unat (sound_timer s) - n"
  by (induction n arbitrary: s) (simp_all add: decrementTimers_sound unat_tick)

subsection \<open>8xy4\<close>

lemma emulateCycle_8xy4:
  assumes "fetch s = Inr opcode" and "opcode AND 0xF00F = 0x8004"
  shows "emulateCycle rnd s =
           Inr (op_ADD (opcode_x opcode) (opcode_y opcode) (s\<lparr>PC := PC s + 2\<rparr>))"
  using assms(1) decode_low_nibble [OF assms(2)]
  by (simp add: emulateCycle_def execute_def op_ALU_def Let_def)

lemma op_ADD_flag:
  "V (op_ADD x y s) 0xF = (if 255 < unat (V s x) + unat (V s y) then 1 else 0)"
  by (simp add: op_ADD_def Let_def word_less_nat_alt unat_sum16)

lemma op_ADD_result:
  "x \<noteq> 0xF \<Longrightarrow> unat (V (op_ADD x y s) x) = (unat (V s x) + unat (V s y)) mod 256"
  by (simp add: op_ADD_def Let_def unat_low_byte unat_sum16)

subsection \<open>8xy5\<close>

lemma emulateCycle_8xy5:
  assumes "fetch s = Inr opcode" and "opcode AND 0xF00F = 0x8005"
  shows "emulateCycle rnd s =
           Inr (op_SUB (opcode_x opcode) (opcode_y opcode) (s\<lparr>PC := PC s + 2\<rparr>))"
  using assms(1) decode_low_nibble [OF assms(2)]
  by (simp add: emulateCycle_def execute_def op_ALU_def Let_def)

lemma op_SUB_flag:
  "x \<noteq> 0xF \<Longrightarrow> V (op_SUB x y s) 0xF = (if V s y \<le> V s x then 1 else 0)"
  by (simp add: op_SUB_def Let_def)

lemma op_SUB_result:
  "x \<noteq> 0xF \<Longrightarrow> y \<noteq> 0xF \<Longrightarrow> V (op_SUB x y s) x = V s x - V s y"
  by (simp add: op_SUB_def Let_def)

subsection \<open>The sound timer and beepFlag\<close>

lemma emulateCycle_Fx18:
  assumes "fetch s = Inr opcode" and "opcode AND 0xF0FF = 0xF018"
  shows "emulateCycle rnd s = Inr (s\<lparr>PC := PC s + 2, sound_timer := V s (opcode_x opcode)\<rparr>)"
  using assms(1) decode_low_byte [OF assms(2)]
  by (simp add: emulateCycle_def execute_def op_F_def Let_def)

lemma decrementTimers_beep: "beepFlag (decrementTimers s) = (0 < sound_timer s)"
  by (simp add: decrementTimers_def Let_def)

lemma reset_sound: "sound_timer (reset s) = 0" "beepFlag (reset s) = False"
  by (simp_all add: reset_def initFont_def)

subsection \<open>CALL and RET\<close>

lemma emulateCycle_2nnn:
  assumes "fetch s = Inr opcode" and "opcode AND 0xF000 = 0x2000"
  shows "emulateCycle rnd s = op_CALL (opcode AND 0x0FFF) (s\<lparr>PC := PC s + 2\<rparr>)"
  using assms by (simp add: emulateCycle_def execute_def opcode_nnn_def Let_def)

lemma emulateCycle_00EE:
  assumes "fetch s = Inr 0x00EE"
  shows "emulateCycle rnd s = op_RET (s\<lparr>PC := PC s + 2\<rparr>)"
  using assms by (simp add: emulateCycle_def execute_def Let_def)

lemma unat_pred_less_16:
  fixes p :: u8
  shows "unat (p - 1) < 16 \<longleftrightarrow> 0 < unat p \<and> unat p \<le> 16"
proof (cases "p = 0")
  case True
  have "unat (- 1 :: u8) = 255"
    by (simp add: unsigned_minus_1_eq_mask mask_eq_exp_minus_1)
  with True show ?thesis by simp
next
  case False
  then have "unat (p - 1) = unat p - 1"
    by (rule unat_minus_one)
  moreover have "0 < unat p"
    using False by (simp add: unat_gt_0)
  ultimately show ?thesis by auto
qed

subsection \<open>Fx0A\<close>

lemma emulateCycle_Fx0A:
  assumes "fetch s = Inr opcode" and "opcode AND 0xF0FF = 0xF00A"
  shows "emulateCycle rnd s = Inr (op_LDK (opcode_x opcode) (s\<lparr>PC := PC s + 2\<rparr>))"
  using assms(1) decode_low_byte [OF assms(2)]
  by (simp add: emulateCycle_def execute_def op_F_def Let_def)

lemma key_scan_none:
  "\<forall>j. i \<le> j \<and> j < 16 \<longrightarrow> \<not> keys s j \<Longrightarrow> key_scan i x keyPressed s = (keyPressed, s)"
proof (induction i x keyPressed s rule: key_scan.induct)
  case (1 i x keyPressed s)
  show ?case
  proof (cases "i < 16")
    case True
    with "1.prems" have "\<not> keys s i" by simp
    moreover have "key_scan (i + 1) x keyPressed s = (keyPressed, s)"
      using True \<open>\<not> keys s i\<close> "1.prems" by (intro "1.IH"(2)) auto
    ultimately show ?thesis
      using True by (subst key_scan.simps) simp
  next
    case False
    then show ?thesis by (subst key_scan.simps) simp
  qed
qed

lemma key_scan_last:
  "i \<le> k \<Longrightarrow> k < 16 \<Longrightarrow> keys s k \<Longrightarrow> \<forall>j. k < j \<and> j < 16 \<longrightarrow> \<not> keys s j \<Longrightarrow>
   key_scan i x keyPressed s = (True, s\<lparr>V := (V s)(x := of_nat k)\<rparr>)"
proof (induction i x keyPressed s rule: key_scan.induct)
  case (1 i x keyPressed s)
  from "1.prems" have lt: "i < 16" by simp
  show ?case
  proof (cases "i = k")
    case True
    have "key_scan (k + 1) x True (s\<lparr>V := (V s)(x := of_nat k)\<rparr>) =
            (True, s\<lparr>V := (V s)(x := of_nat k)\<rparr>)"
      using "1.prems" by (intro key_scan_none) auto
    then show ?thesis
      using True lt "1.prems"(3) by (subst key_scan.simps) simp
  next
    case False
    with "1.prems" have ik: "i + 1 \<le> k" by simp
    show ?thesis
    proof (cases "keys s i")
      case True
      have "key_scan (i + 1) x True (s\<lparr>V := (V s)(x := of_nat i)\<rparr>) =
              (True, s\<lparr>V := (V s)(x := of_nat i)\<rparr>
                      \<lparr>V := (V (s\<lparr>V := (V s)(x := of_nat i)\<rparr>))(x := of_nat k)\<rparr>)"
        using lt True ik "1.prems" by (intro "1.IH"(1)) auto
      then show ?thesis
        using lt True by (subst key_scan.simps) simp
    next
      case nk: False
      have "key_scan (i + 1) x keyPressed s = (True, s\<lparr>V := (V s)(x := of_nat k)\<rparr>)"
        using lt nk ik "1.prems" by (intro "1.IH"(2)) auto
      then show ?thesis
        using lt nk by (subst key_scan.simps) simp
    qed
  qed
qed

subsection \<open>Dxyn\<close>

lemma emulateCycle_Dxyn:
  assumes "fetch s = Inr opcode" and "opcode AND 0xF000 = 0xD000"
  shows "emulateCycle rnd s =
     op_DRW (opcode_x opcode) (opcode_y opcode) (opcode_n opcode) (s\<lparr>PC := PC s + 2\<rparr>)"
  using assms by (simp add: emulateCycle_def execute_def Let_def)

lemma fetch_V_update: "fetch (s\<lparr>V := r\<rparr>) = fetch s"
  by (simp add: fetch_def)

subsection \<open>Memory writes, reset and loadROM\<close>

lemma write_bytes_outside:
  "a' < a \<or> a + length bs \<le> a' \<Longrightarrow> write_bytes a bs m a' = m a'"
  by (induction bs arbitrary: a m) auto

lemma write_bytes_inside:
  "i < length bs \<Longrightarrow> write_bytes a bs m (a + i) = bs ! i"
proof (induction bs arbitrary: a m i)
  case Nil
  then show ?case by simp
next
  case (Cons b bs)
  show ?case
  proof (cases i)
    case 0
    then show ?thesis by (simp add: write_bytes_outside)
  next
    case (Suc j)
    with Cons.prems have "j < length bs" by simp
    then have "write_bytes (a + 1) bs (m(a := b)) (a + 1 + j) = bs ! j"
      by (rule Cons.IH)
    with Suc show ?thesis by simp
  qed
qed

lemma length_font: "length font = 80"
  by (simp add: font_def)

lemma memory_reset_zero: "0xA0 \<le> a \<Longrightarrow> memory (reset s) a = 0"
  by (simp add: reset_def initFont_def write_bytes_outside length_font)

lemma PC_reset: "PC (reset s) = 0x200"
  by (simp add: reset_def initFont_def)

subsection \<open>Fx55\<close>

lemma emulateCycle_Fx55:
  assumes "fetch s = Inr opcode" and "opcode AND 0xF0FF = 0xF055"
  shows "emulateCycle rnd s =
     (case store_regs 0 (opcode_x opcode) (s\<lparr>PC := PC s + 2\<rparr>) of Inl e \<Rightarrow> Inl e
        | Inr s1 \<Rightarrow> Inr (bump_I (opcode_x opcode) s1))"
  using assms(1) decode_low_byte [OF assms(2)]
  by (simp add: emulateCycle_def execute_def op_F_def Let_def)

lemma store_regs_ok:
  "unat (I s) + x < 4096 \<Longrightarrow>
   store_regs i x s =
     Inr (s\<lparr>memory := (\<lambda>a. if unat (I s) + i \<le> a \<and> a \<le> unat (I s) + x
                             then V s (a - unat (I s)) else memory s a)\<rparr>)"
proof (induction i x s rule: store_regs.induct)
  case (1 i x s)
  show ?case
  proof (cases "i \<le> x")
    case True
    let ?s1 = "s\<lparr>memory := (memory s)(unat (I s) + i := V s i)\<rparr>"
    from True "1.prems" have inb: "unat (I s) + i < 4096" by simp
    have ih: "store_regs (i + 1) x ?s1 =
            Inr (?s1\<lparr>memory := (\<lambda>a. if unat (I ?s1) + (i + 1) \<le> a \<and> a \<le> unat (I ?s1) + x
                                     then V ?s1 (a - unat (I ?s1)) else memory ?s1 a)\<rparr>)"
      using True inb "1.prems" by (intro "1.IH") simp_all
    have same: "?s1\<lparr>memory := (\<lambda>a. if unat (I ?s1) + (i + 1) \<le> a \<and> a \<le> unat (I ?s1) + x
                                     then V ?s1 (a - unat (I ?s1)) else memory ?s1 a)\<rparr> =
               s\<lparr>memory := (\<lambda>a. if unat (I s) + i \<le> a \<and> a \<le> unat (I s) + x
                               then V s (a - unat (I s)) else memory s a)\<rparr>"
      using True by (auto simp: fun_eq_iff)
    have rest: "store_regs (i + 1) x ?s1 =
        Inr (s\<lparr>memory := (\<lambda>a. if unat (I s) + i \<le> a \<and> a \<le> unat (I s) + x
                               then V s (a - unat (I s)) else memory s a)\<rparr>)"
      by (simp only: ih same)
    have step: "store_regs i x s = store_regs (i + 1) x ?s1"
      using True inb by (subst store_regs.simps) simp
    show ?thesis
      by (rule trans [OF step rest])
  next
    case False
    then have "(\<lambda>a. if unat (I s) + i \<le> a \<and> a \<le> unat (I s) + x
                     then V s (a - unat (I s)) else memory s a) = memory s"
      by (auto simp: fun_eq_iff)
    then show ?thesis
      using False by (subst store_regs.simps) simp
  qed
qed

lemma unat_bump:
  fixes w :: u16
  assumes "unat w + x < 4096"
  shows "unat (w + (of_nat x + 1)) = unat w + x + 1"
proof -
  have e: "of_nat x + 1 = (of_nat (Suc x) :: u16)"
    by simp
  have u: "unat (of_nat (Suc x) :: u16) = Suc x"
    using assms by (simp only: unat_of_nat len_of_numeral_defs) simp
  have "unat w + unat (of_nat (Suc x) :: u16) < 2 ^ LENGTH(16)"
    using assms by (simp only: u) simp
  then have "unat (w + of_nat (Suc x)) = unat w + unat (of_nat (Suc x) :: u16)"
    by (simp only: unat_add_lem)
  then show ?thesis
    by (simp only: e u)
qed

subsection \<open>A two-instruction program\<close>

text \<open>After two cycles of 6005 7003, V0 is 8 and PC is 0x204.\<close>

lemma example_program_runs:
  "\<not> isl (emulateCycle 0 example_program) \<and>
   \<not> isl (emulateCycle 0 (projr (emulateCycle 0 example_program))) \<and>
   V (projr (emulateCycle 0 (projr (emulateCycle 0 example_program)))) 0 = 0x08 \<and>
   PC (projr (emulateCycle 0 (projr (emulateCycle 0 example_program)))) = 0x204"
proof -
  have p: "PC example_program = 0x200" "V example_program = (\<lambda>_. 0)"
    and m: "memory example_program 0x200 = 0x60" "memory example_program 0x201 = 0x05"
      "memory example_program 0x202 = 0x70" "memory example_program 0x203 = 0x03"
    by (simp_all add: example_program_def loadROM_def reset_def initFont_def Let_def)
  have one: "emulateCycle 0 example_program =
               Inr (example_program\<lparr>PC := 0x202, V := (\<lambda>_. 0)(0 := 0x05)\<rparr>)"
    by (simp add: emulateCycle_def fetch_def execute_def Let_def p m
        opcode_x_def opcode_nn_def)
  have two: "emulateCycle 0 (example_program\<lparr>PC := 0x202, V := (\<lambda>_. 0)(0 := 0x05)\<rparr>) =
               Inr (example_program\<lparr>PC := 0x204, V := (\<lambda>_. 0)(0 := 0x08)\<rparr>)"
    by (simp add: emulateCycle_def fetch_def execute_def Let_def p m
        opcode_x_def opcode_nn_def)
  show ?thesis
    by (simp add: one two)
qed

section \<open>The claims\<close>

text \<open>
  C1, where the code departs from it. On an empty display, D011 with origin (60, 0)
  and sprite row 0x08 has a single set bit, whose target (64, 0) is right of the
  64 columns; the step does not drop it but turns on the pixel at column 0 of row 1.
\<close>

theorem draw_wraps_to_next_row:
  "fetch draw_edge_machine = Inr 0xD011 \<and>
   unat (V draw_edge_machine (opcode_x 0xD011) mod 64) = 60 \<and>
   unat (V draw_edge_machine (opcode_y 0xD011) mod 32) = 0 \<and>
   memory draw_edge_machine (unat (I draw_edge_machine)) = 0x08 \<and>
   \<not> gfx draw_edge_machine (1 * 64 + 0) \<and>
   \<not> isl (emulateCycle 0 draw_edge_machine) \<and>
   gfx (projr (emulateCycle 0 draw_edge_machine)) (1 * 64 + 0)"
proof -
  have f: "fetch draw_edge_machine = Inr 0xD011"
    by (simp add: draw_edge_machine_def fetch_def boot_def Chip8_def initFont_def)
  have m: "(0xD011 :: u16) AND 0xF000 = 0xD000"
    by simp
  have x: "opcode_x 0xD011 = 0" and y: "opcode_y 0xD011 = 1" and n: "opcode_n 0xD011 = 1"
    by (simp_all add: opcode_x_def opcode_y_def opcode_n_def)
  have g: "gfx draw_edge_machine = (\<lambda>_. False)" "I draw_edge_machine = 0x300"
    "memory draw_edge_machine 0x300 = 0x08"
    "V draw_edge_machine 0 = 60" "V draw_edge_machine (Suc 0) = 0"
    by (simp_all add: draw_edge_machine_def boot_def Chip8_def initFont_def)
  have "emulateCycle 0 draw_edge_machine =
          op_DRW 0 1 1 (draw_edge_machine\<lparr>PC := PC draw_edge_machine + 2\<rparr>)"
    using emulateCycle_Dxyn [OF f m, of 0] by (simp add: x y n)
  then show ?thesis
    using f by (simp add: x y g op_DRW_def draw_rows.simps draw_cols.simps)
qed

text \<open>
  C2, as the code has it. After decrementTimers, beepFlag tells whether the sound
  timer was above 0 before that call; Fx18 stores Vx in the sound timer and leaves
  beepFlag as it was; after reset beepFlag is off and the sound timer is 0.
\<close>

theorem sound_flag:
  "beepFlag (decrementTimers s) = (0 < sound_timer s) \<and>
   (fetch s = Inr opcode \<and> opcode AND 0xF0FF = 0xF018 \<longrightarrow>
      (\<exists>s'. emulateCycle rnd s = Inr s' \<and> beepFlag s' = beepFlag s \<and>
            sound_timer s' = V s (opcode_x opcode))) \<and>
   \<not> beepFlag (reset s) \<and> sound_timer (reset s) = 0"
  by (auto simp: decrementTimers_beep reset_sound emulateCycle_Fx18)

theorem sound_flag_witness:
  "beepFlag (decrementTimers sound_machine) = (0 < sound_timer sound_machine) \<and>
   fetch sound_machine = Inr 0xF018 \<and> (0xF018 :: u16) AND 0xF0FF = 0xF018 \<and>
   (\<exists>s'. emulateCycle 0 sound_machine = Inr s' \<and> beepFlag s' = beepFlag sound_machine \<and>
         sound_timer s' = 1) \<and>
   \<not> beepFlag (reset sound_machine) \<and> sound_timer (reset sound_machine) = 0"
proof -
  have f: "fetch sound_machine = Inr 0xF018"
    by (simp add: sound_machine_def fetch_def boot_def Chip8_def initFont_def)
  have x: "opcode_x 0xF018 = 0"
    by (simp add: opcode_x_def)
  have v: "V sound_machine 0 = 1"
    by (simp add: sound_machine_def)
  show ?thesis
    using sound_flag [of sound_machine "0xF018" 0] f by (simp add: x v)
qed

text \<open>
  C2 as stated fails: a tick from sound timer 1 leaves the timer at 0 with beepFlag
  on, and F018 with V0 = 1 on a fresh machine leaves the timer at 1 with beepFlag off.
\<close>

theorem sound_flag_counterexample:
  "beepFlag (decrementTimers (Chip8\<lparr>sound_timer := 1\<rparr>)) \<noteq>
     (0 < sound_timer (decrementTimers (Chip8\<lparr>sound_timer := 1\<rparr>))) \<and>
   fetch sound_machine = Inr 0xF018 \<and>
   \<not> isl (emulateCycle 0 sound_machine) \<and>
   beepFlag (projr (emulateCycle 0 sound_machine)) \<noteq>
     (0 < sound_timer (projr (emulateCycle 0 sound_machine)))"
proof -
  have f: "fetch sound_machine = Inr 0xF018"
    by (simp add: sound_machine_def fetch_def boot_def Chip8_def initFont_def)
  have x: "opcode_x 0xF018 = 0"
    by (simp add: opcode_x_def)
  have v: "V sound_machine 0 = 1" "beepFlag sound_machine = False"
    by (simp_all add: sound_machine_def boot_def Chip8_def initFont_def)
  have t: "beepFlag (decrementTimers (Chip8\<lparr>sound_timer := 1\<rparr>)) \<noteq>
     (0 < sound_timer (decrementTimers (Chip8\<lparr>sound_timer := 1\<rparr>)))"
    by (simp add: decrementTimers_def Let_def Chip8_def initFont_def)
  show ?thesis
    using f t by (simp add: emulateCycle_Fx18 [OF f] x v)
qed

text \<open>
  C3, as the code has it. Executing 8xy4 leaves VF = 1 when the unsigned sum of the
  old Vx and Vy exceeds 255 and VF = 0 otherwise, for every x and y; and when x is
  not 0xF it leaves Vx holding that sum mod 256. (With x = 0xF the flag is written
  last, over the sum.)
\<close>

theorem add_8xy4:
  assumes "fetch s = Inr opcode" and "opcode AND 0xF00F = 0x8004"
  shows "\<exists>s'. emulateCycle rnd s = Inr s' \<and>
           V s' 0xF = (if 255 < unat (V s (opcode_x opcode)) + unat (V s (opcode_y opcode))
                       then 1 else 0) \<and>
           (opcode_x opcode \<noteq> 0xF \<longrightarrow>
              unat (V s' (opcode_x opcode)) =
                (unat (V s (opcode_x opcode)) + unat (V s (opcode_y opcode))) mod 256)"
  by (simp add: emulateCycle_8xy4 [OF assms] op_ADD_flag op_ADD_result)

theorem add_8xy4_witness:
  "fetch add_machine = Inr 0x8014 \<and> (0x8014 :: u16) AND 0xF00F = 0x8004 \<and>
   opcode_x 0x8014 = 0 \<and> opcode_y 0x8014 = 1 \<and>
   (\<exists>s'. emulateCycle 0 add_machine = Inr s' \<and> V s' 0xF = 1 \<and> unat (V s' 0) = 44)"
proof -
  have f: "fetch add_machine = Inr 0x8014"
    by (simp add: add_machine_def fetch_def boot_def Chip8_def initFont_def)
  have m: "(0x8014 :: u16) AND 0xF00F = 0x8004"
    by simp
  have x: "opcode_x 0x8014 = 0" and y: "opcode_y 0x8014 = 1"
    by (simp_all add: opcode_x_def opcode_y_def)
  have v: "V add_machine 0 = 200" "V add_machine (Suc 0) = 100"
    by (simp_all add: add_machine_def)
  show ?thesis
    using add_8xy4 [OF f m, of 0] f by (simp add: x y v)
qed

text \<open>
  C3 as stated fails at x = 0xF: with VF = 3 and V0 = 4, 8F04 leaves VF = 0 (the
  carry), not the sum 7.
\<close>

theorem add_8xy4_counterexample:
  "fetch add_xF_machine = Inr 0x8F04 \<and> opcode_x 0x8F04 = 0xF \<and> opcode_y 0x8F04 = 0 \<and>
   \<not> isl (emulateCycle 0 add_xF_machine) \<and>
   unat (V (projr (emulateCycle 0 add_xF_machine)) 0xF) \<noteq>
     (unat (V add_xF_machine 0xF) + unat (V add_xF_machine 0)) mod 256"
proof -
  have f: "fetch add_xF_machine = Inr 0x8F04"
    by (simp add: add_xF_machine_def fetch_def boot_def Chip8_def initFont_def)
  have x: "opcode_x 0x8F04 = 0xF" and y: "opcode_y 0x8F04 = 0"
    by (simp_all add: opcode_x_def opcode_y_def)
  have v: "V add_xF_machine 0xF = 3" "V add_xF_machine 0 = 4"
    by (simp_all add: add_xF_machine_def)
  have "emulateCycle 0 add_xF_machine =
          Inr (op_ADD 0xF 0 (add_xF_machine\<lparr>PC := PC add_xF_machine + 2\<rparr>))"
    using emulateCycle_8xy4 [OF f, of 0] by (simp add: x y)
  then show ?thesis
    using f by (simp add: x y v op_ADD_flag)
qed

text \<open>
  C4, where the code departs from it. 80F5 with V0 = 10 and VF = 7: the old Vx is at
  least the old Vy, and the difference of the old values is 3. The code stores the
  flag in VF first and subtracts afterwards, so it subtracts the flag: the step
  leaves VF = 1 and V0 = 9, not 3.
\<close>

theorem sub_8xy5_subtracts_flag:
  "fetch sub_yF_machine = Inr 0x80F5 \<and> (0x80F5 :: u16) AND 0xF00F = 0x8005 \<and>
   opcode_x 0x80F5 = 0 \<and> opcode_y 0x80F5 = 0xF \<and>
   V sub_yF_machine 0 = 10 \<and> V sub_yF_machine 0xF = 7 \<and>
   \<not> isl (emulateCycle 0 sub_yF_machine) \<and>
   V (projr (emulateCycle 0 sub_yF_machine)) 0xF = 1 \<and>
   V (projr (emulateCycle 0 sub_yF_machine)) 0 = 9 \<and>
   uint (V (projr (emulateCycle 0 sub_yF_machine)) 0) \<noteq>
     (uint (V sub_yF_machine 0) - uint (V sub_yF_machine 0xF)) mod 256"
proof -
  have f: "fetch sub_yF_machine = Inr 0x80F5"
    by (simp add: sub_yF_machine_def fetch_def boot_def Chip8_def initFont_def)
  have m: "(0x80F5 :: u16) AND 0xF00F = 0x8005"
    by simp
  have x: "opcode_x 0x80F5 = 0" and y: "opcode_y 0x80F5 = 0xF"
    by (simp_all add: opcode_x_def opcode_y_def)
  have v: "V sub_yF_machine 0 = 10" "V sub_yF_machine 0xF = 7"
    by (simp_all add: sub_yF_machine_def)
  have "emulateCycle 0 sub_yF_machine =
          Inr (op_SUB 0 0xF (sub_yF_machine\<lparr>PC := PC sub_yF_machine + 2\<rparr>))"
    using emulateCycle_8xy5 [OF f m, of 0] by (simp add: x y)
  then show ?thesis
    using f by (simp add: x y v op_SUB_def Let_def)
qed

text \<open>
  C5. Executing Fx0A with none of the 16 keys pressed leaves the machine as it was
  before the step (PC back on the instruction, Vx untouched); with a key pressed
  it leaves PC advanced by 2 and Vx holding the highest pressed index.
\<close>

theorem wait_for_key:
  assumes "fetch s = Inr opcode" and "opcode AND 0xF0FF = 0xF00A"
  shows "((\<forall>i<16. \<not> keys s i) \<longrightarrow> emulateCycle rnd s = Inr s) \<and>
         (\<forall>k<16. keys s k \<and> (\<forall>j<16. k < j \<longrightarrow> \<not> keys s j) \<longrightarrow>
            emulateCycle rnd s =
              Inr (s\<lparr>PC := PC s + 2, V := (V s)(opcode_x opcode := of_nat k)\<rparr>))"
proof (intro conjI impI allI)
  assume "\<forall>i<16. \<not> keys s i"
  then have "key_scan 0 (opcode_x opcode) False (s\<lparr>PC := PC s + 2\<rparr>) =
               (False, s\<lparr>PC := PC s + 2\<rparr>)"
    by (intro key_scan_none) simp
  then show "emulateCycle rnd s = Inr s"
    by (simp add: emulateCycle_Fx0A [OF assms] op_LDK_def)
next
  fix k :: nat
  assume "k < 16" and "keys s k \<and> (\<forall>j<16. k < j \<longrightarrow> \<not> keys s j)"
  then have "key_scan 0 (opcode_x opcode) False (s\<lparr>PC := PC s + 2\<rparr>) =
               (True, s\<lparr>PC := PC s + 2\<rparr>
                  \<lparr>V := (V (s\<lparr>PC := PC s + 2\<rparr>))(opcode_x opcode := of_nat k)\<rparr>)"
    by (intro key_scan_last) auto
  then show "emulateCycle rnd s =
               Inr (s\<lparr>PC := PC s + 2, V := (V s)(opcode_x opcode := of_nat k)\<rparr>)"
    by (simp add: emulateCycle_Fx0A [OF assms] op_LDK_def)
qed

theorem wait_for_key_witness:
  "fetch (wait_machine (\<lambda>_. False)) = Inr 0xF00A \<and> (0xF00A :: u16) AND 0xF0FF = 0xF00A \<and>
   emulateCycle 0 (wait_machine (\<lambda>_. False)) = Inr (wait_machine (\<lambda>_. False)) \<and>
   fetch (wait_machine ((\<lambda>_. False)(3 := True, 7 := True))) = Inr 0xF00A \<and>
   emulateCycle 0 (wait_machine ((\<lambda>_. False)(3 := True, 7 := True))) =
     Inr ((wait_machine ((\<lambda>_. False)(3 := True, 7 := True)))
            \<lparr>PC := 0x202, V := (\<lambda>_. 0)(0 := 7)\<rparr>)"
proof -
  have f: "fetch (wait_machine ks) = Inr 0xF00A" for ks
    by (simp add: wait_machine_def fetch_def boot_def Chip8_def initFont_def)
  have m: "(0xF00A :: u16) AND 0xF0FF = 0xF00A"
    by simp
  have x: "opcode_x 0xF00A = 0"
    by (simp add: opcode_x_def)
  have k: "keys (wait_machine ks) = ks" "PC (wait_machine ks) = 0x200"
    "V (wait_machine ks) = (\<lambda>_. 0)(0 := 0xAA)" for ks
    by (simp_all add: wait_machine_def PC_boot)
  have "emulateCycle 0 (wait_machine (\<lambda>_. False)) = Inr (wait_machine (\<lambda>_. False))"
    using wait_for_key [OF f m, of "\<lambda>_. False" 0] by (simp add: k)
  moreover have "emulateCycle 0 (wait_machine ((\<lambda>_. False)(3 := True, 7 := True))) =
     Inr ((wait_machine ((\<lambda>_. False)(3 := True, 7 := True)))
            \<lparr>PC := 0x202, V := (\<lambda>_. 0)(0 := 7)\<rparr>)"
    using wait_for_key [OF f m, of "(\<lambda>_. False)(3 := True, 7 := True)" 0,
        THEN conjunct2, THEN spec, of 7]
    by (simp add: x k)
  ultimately show ?thesis
    using f by simp
qed

text \<open>
  C6. Loading an image that can be opened succeeds exactly when it has at most 3584
  bytes. On success PC is 0x200, the bytes lie at 0x200 onwards and every address
  from 0x200 + length on is 0; on failure nothing is copied: the machine is the
  reset machine, whose memory is 0 from 0x200 on.
\<close>

theorem loadROM_size:
  "fst (loadROM (Some bytes) s) = (length bytes \<le> 3584) \<and>
   (length bytes \<le> 3584 \<longrightarrow>
      PC (snd (loadROM (Some bytes) s)) = 0x200 \<and>
      (\<forall>i<length bytes. memory (snd (loadROM (Some bytes) s)) (0x200 + i) = bytes ! i) \<and>
      (\<forall>a. 0x200 + length bytes \<le> a \<longrightarrow> memory (snd (loadROM (Some bytes) s)) a = 0)) \<and>
   (3584 < length bytes \<longrightarrow> snd (loadROM (Some bytes) s) = reset s) \<and>
   (\<forall>a. 0x200 \<le> a \<longrightarrow> memory (reset s) a = 0)"
  by (simp add: loadROM_def Let_def PC_reset write_bytes_inside write_bytes_outside
      memory_reset_zero)

theorem loadROM_size_witness:
  "fst (loadROM (Some (replicate 3584 0xFF)) Chip8) \<and>
   PC (snd (loadROM (Some (replicate 3584 0xFF)) Chip8)) = 0x200 \<and>
   memory (snd (loadROM (Some (replicate 3584 0xFF)) Chip8)) 0xFFF = 0xFF \<and>
   memory (snd (loadROM (Some [0x60, 0x05]) Chip8)) 0x201 = 0x05 \<and>
   memory (snd (loadROM (Some [0x60, 0x05]) Chip8)) 0x202 = 0 \<and>
   \<not> fst (loadROM (Some (replicate 3585 0xFF)) Chip8) \<and>
   snd (loadROM (Some (replicate 3585 0xFF)) Chip8) = reset Chip8 \<and>
   memory (reset Chip8) 0x200 = 0"
proof -
  have a: "memory (snd (loadROM (Some (replicate 3584 0xFF)) Chip8)) 0xFFF = 0xFF"
    using loadROM_size [of "replicate 3584 0xFF" Chip8, THEN conjunct2, THEN conjunct1,
        THEN mp, THEN conjunct2, THEN conjunct1, THEN spec, of 3583]
    by simp
  have b: "memory (snd (loadROM (Some [0x60, 0x05]) Chip8)) 0x201 = 0x05"
    using loadROM_size [of "[0x60, 0x05]" Chip8, THEN conjunct2, THEN conjunct1,
        THEN mp, THEN conjunct2, THEN conjunct1, THEN spec, of 1]
    by simp
  have c: "memory (snd (loadROM (Some [0x60, 0x05]) Chip8)) 0x202 = 0"
    using loadROM_size [of "[0x60, 0x05]" Chip8, THEN conjunct2, THEN conjunct1,
        THEN mp, THEN conjunct2, THEN conjunct2, THEN spec, of "0x202"]
    by simp
  show ?thesis
    using loadROM_size [of "replicate 3584 0xFF" Chip8]
      loadROM_size [of "replicate 3585 0xFF" Chip8] a b c
    by simp
qed

text \<open>
  C7. When the addresses I .. I + x are inside memory, executing Fx55 stores V0 .. Vx
  there, leaves every other address and all registers as they were, and leaves I
  increased by x + 1.
\<close>

theorem store_registers_Fx55:
  assumes "fetch s = Inr opcode" and "opcode AND 0xF0FF = 0xF055"
    and "unat (I s) + opcode_x opcode < 4096"
  shows "\<exists>s'. emulateCycle rnd s = Inr s' \<and>
           (\<forall>i\<le>opcode_x opcode. memory s' (unat (I s) + i) = V s i) \<and>
           (\<forall>a. a < unat (I s) \<or> unat (I s) + opcode_x opcode < a \<longrightarrow>
                  memory s' a = memory s a) \<and>
           V s' = V s \<and>
           I s' = I s + (of_nat (opcode_x opcode) + 1) \<and>
           unat (I s') = unat (I s) + opcode_x opcode + 1"
  using assms(3)
  by (simp add: emulateCycle_Fx55 [OF assms(1,2)] store_regs_ok bump_I_def unat_bump)

theorem store_registers_Fx55_witness:
  "fetch store_machine = Inr 0xF255 \<and> (0xF255 :: u16) AND 0xF0FF = 0xF055 \<and>
   opcode_x 0xF255 = 2 \<and> unat (I store_machine) + opcode_x 0xF255 < 4096 \<and>
   (\<exists>s'. emulateCycle 0 store_machine = Inr s' \<and>
         memory s' 0x300 = 0x11 \<and> memory s' 0x301 = 0x22 \<and> memory s' 0x302 = 0x33 \<and>
         memory s' 0x303 = memory store_machine 0x303 \<and>
         V s' = V store_machine \<and> I s' = 0x303)"
proof -
  have f: "fetch store_machine = Inr 0xF255"
    by (simp add: store_machine_def fetch_def boot_def Chip8_def initFont_def)
  have m: "(0xF255 :: u16) AND 0xF0FF = 0xF055"
    by simp
  have x: "opcode_x 0xF255 = 2"
    by (simp add: opcode_x_def)
  have i: "I store_machine = 0x300"
    and v: "V store_machine 0 = 0x11" "V store_machine (Suc 0) = 0x22" "V store_machine 2 = 0x33"
    by (simp_all add: store_machine_def)
  have b: "unat (I store_machine) + opcode_x 0xF255 < 4096"
    by (simp add: x i)
  from store_registers_Fx55 [OF f m b, of 0] obtain s' where
    r: "emulateCycle 0 store_machine = Inr s'"
    and w: "\<forall>i\<le>2. memory s' (0x300 + i) = V store_machine i"
    and o: "\<forall>a. a < 0x300 \<or> 0x300 + 2 < a \<longrightarrow> memory s' a = memory store_machine a"
    and k: "V s' = V store_machine" "I s' = 0x303"
    by (auto simp: x i)
  from w [THEN spec, of 0] w [THEN spec, of 1] w [THEN spec, of 2] o [THEN spec, of "0x303"]
  have "memory s' 0x300 = 0x11 \<and> memory s' 0x301 = 0x22 \<and> memory s' 0x302 = 0x33 \<and>
        memory s' 0x303 = memory store_machine 0x303"
    by (simp add: v)
  with r k f m x b show ?thesis
    by simp
qed

text \<open>
  C8. Starting from a delay timer \<open>D\<close>, after \<open>N\<close> calls of decrementTimers the delay
  timer reads \<open>max (D - N) 0\<close>; one call takes exactly 1 from a positive timer and
  leaves a zero timer at zero; the sound timer behaves the same way.
\<close>

theorem timers_count_down:
  "int (unat (delay_timer (ticks N s))) = max (int (unat (delay_timer s)) - int N) 0 \<and>
   int (unat (sound_timer (ticks N s))) = max (int (unat (sound_timer s)) - int N) 0 \<and>
   delay_timer (decrementTimers s) = (if 0 < delay_timer s then delay_timer s - 1 else 0) \<and>
   sound_timer (decrementTimers s) = (if 0 < sound_timer s then sound_timer s - 1 else 0) \<and>
   unat (delay_timer (decrementTimers s)) = unat (delay_timer s) - 1 \<and>
   unat (sound_timer (decrementTimers s)) = unat (sound_timer s) - 1"
proof -
  have "int (unat (delay_timer s) - N) = max (int (unat (delay_timer s)) - int N) 0"
    and "int (unat (sound_timer s) - N) = max (int (unat (sound_timer s)) - int N) 0"
    by linarith+
  then show ?thesis
    using ticks_delay [of 1 s] ticks_sound [of 1 s]
    by (simp add: ticks_delay ticks_sound decrementTimers_delay decrementTimers_sound)
qed

text \<open>
  C9. 2nnn stores the already advanced PC in the stack slot at sp, then increments
  sp and jumps; 00EE decrements sp, then loads PC from that slot. Neither is guarded:
  the slot is inside the 16 entries exactly when sp is below 16 for the call and
  from 1 to 16 for the return; a call at sp = 16 and a return at sp = 0 access the
  stack out of bounds.
\<close>

theorem call_return_stack:
  "(fetch s = Inr opcode \<and> opcode AND 0xF000 = 0x2000 \<longrightarrow>
      emulateCycle rnd s =
        (if unat (sp s) < 16
         then Inr (s\<lparr>stack := (stack s)(unat (sp s) := PC s + 2), sp := sp s + 1,
                      PC := opcode AND 0x0FFF\<rparr>)
         else Inl StackOutOfBounds)) \<and>
   (fetch s = Inr 0x00EE \<longrightarrow>
      emulateCycle rnd s =
        (if 0 < unat (sp s) \<and> unat (sp s) \<le> 16
         then Inr (s\<lparr>sp := sp s - 1, PC := stack s (unat (sp s - 1))\<rparr>)
         else Inl StackOutOfBounds))"
  by (simp add: emulateCycle_2nnn emulateCycle_00EE op_CALL_def op_RET_def Let_def
      unat_pred_less_16)

theorem call_return_stack_witness:
  "fetch (call_machine 0) = Inr 0x2345 \<and> (0x2345 :: u16) AND 0xF000 = 0x2000 \<and>
   emulateCycle 0 (call_machine 0) =
     Inr ((call_machine 0)\<lparr>stack := (stack (call_machine 0))(0 := 0x202), sp := 1,
                             PC := 0x345\<rparr>) \<and>
   fetch (call_machine 16) = Inr 0x2345 \<and>
   emulateCycle 0 (call_machine 16) = Inl StackOutOfBounds \<and>
   fetch (ret_machine 1) = Inr 0x00EE \<and>
   emulateCycle 0 (ret_machine 1) = Inr ((ret_machine 1)\<lparr>sp := 0, PC := 0x0456\<rparr>) \<and>
   fetch (ret_machine 0) = Inr 0x00EE \<and>
   emulateCycle 0 (ret_machine 0) = Inl StackOutOfBounds"
proof -
  have f: "fetch (call_machine p) = Inr 0x2345" for p
    by (simp add: call_machine_def fetch_def boot_def Chip8_def initFont_def)
  have g: "fetch (ret_machine p) = Inr 0x00EE" for p
    by (simp add: ret_machine_def fetch_def boot_def Chip8_def initFont_def)
  have m: "(0x2345 :: u16) AND 0xF000 = 0x2000" "(0x2345 :: u16) AND 0x0FFF = 0x345"
    by simp_all
  have c: "sp (call_machine p) = p" "PC (call_machine p) = 0x200" for p
    by (simp_all add: call_machine_def PC_boot)
  have r: "sp (ret_machine p) = p" "stack (ret_machine p) 0 = 0x0456" for p
    by (simp_all add: ret_machine_def)
  show ?thesis
    using call_return_stack [of "call_machine 0" "0x2345" 0]
      call_return_stack [of "call_machine 16" "0x2345" 0]
      call_return_stack [of "ret_machine 1" "0x2345" 0]
      call_return_stack [of "ret_machine 0" "0x2345" 0]
    by (simp add: f g m c r)
qed

text \<open>
  C10. Dxyn clears VF before it reads the origin registers: the rows are drawn from
  x coordinate 0 when x = 0xF (otherwise Vx mod 64) and from y coordinate 0 when
  y = 0xF (otherwise Vy mod 32), and the outcome of the step is the same whatever VF
  held before.
\<close>

theorem draw_ignores_old_VF:
  assumes "fetch s = Inr opcode" and "opcode AND 0xF000 = 0xD000"
  shows "emulateCycle rnd s =
           (case draw_rows (unat (opcode_n opcode))
                   (if opcode_x opcode = 0xF then 0 else unat (V s (opcode_x opcode) mod 64))
                   (if opcode_y opcode = 0xF then 0 else unat (V s (opcode_y opcode) mod 32))
                   0 (s\<lparr>PC := PC s + 2, V := (V s)(0xF := 0)\<rparr>) of
              Inl e \<Rightarrow> Inl e
            | Inr s2 \<Rightarrow> Inr (s2\<lparr>drawFlag := True\<rparr>)) \<and>
         emulateCycle rnd (s\<lparr>V := (V s)(0xF := v)\<rparr>) = emulateCycle rnd s"
proof -
  let ?t = "s\<lparr>V := (V s)(0xF := v)\<rparr>"
  have "fetch ?t = Inr opcode"
    using assms(1) by (simp add: fetch_V_update)
  then have "emulateCycle rnd ?t =
      op_DRW (opcode_x opcode) (opcode_y opcode) (opcode_n opcode) (?t\<lparr>PC := PC ?t + 2\<rparr>)"
    using assms(2) by (rule emulateCycle_Dxyn)
  also have "\<dots> =
      op_DRW (opcode_x opcode) (opcode_y opcode) (opcode_n opcode) (s\<lparr>PC := PC s + 2\<rparr>)"
    by (simp add: op_DRW_def)
  finally have "emulateCycle rnd ?t = emulateCycle rnd s"
    by (simp add: emulateCycle_Dxyn [OF assms])
  then show ?thesis
    by (simp add: emulateCycle_Dxyn [OF assms] op_DRW_def Let_def)
qed

theorem draw_ignores_old_VF_witness:
  "fetch (draw_VF_machine 0xDF 0x01 33) = Inr 0xDF01 \<and> (0xDF01 :: u16) AND 0xF000 = 0xD000 \<and>
   opcode_x 0xDF01 = 0xF \<and> opcode_y 0xDF01 = 0 \<and>
   emulateCycle 0 (draw_VF_machine 0xDF 0x01 33) =
     (case draw_rows 1 0 10 0
             ((draw_VF_machine 0xDF 0x01 33)
                \<lparr>PC := 0x202, V := (V (draw_VF_machine 0xDF 0x01 33))(0xF := 0)\<rparr>) of
        Inl e \<Rightarrow> Inl e
      | Inr s2 \<Rightarrow> Inr (s2\<lparr>drawFlag := True\<rparr>)) \<and>
   emulateCycle 0 (draw_VF_machine 0xDF 0x01 7) = emulateCycle 0 (draw_VF_machine 0xDF 0x01 33) \<and>
   fetch (draw_VF_machine 0xD0 0xF1 33) = Inr 0xD0F1 \<and> (0xD0F1 :: u16) AND 0xF000 = 0xD000 \<and>
   opcode_x 0xD0F1 = 0 \<and> opcode_y 0xD0F1 = 0xF \<and>
   emulateCycle 0 (draw_VF_machine 0xD0 0xF1 33) =
     (case draw_rows 1 10 0 0
             ((draw_VF_machine 0xD0 0xF1 33)
                \<lparr>PC := 0x202, V := (V (draw_VF_machine 0xD0 0xF1 33))(0xF := 0)\<rparr>) of
        Inl e \<Rightarrow> Inl e
      | Inr s2 \<Rightarrow> Inr (s2\<lparr>drawFlag := True\<rparr>)) \<and>
   emulateCycle 0 (draw_VF_machine 0xD0 0xF1 7) = emulateCycle 0 (draw_VF_machine 0xD0 0xF1 33)"
proof -
  have f: "fetch (draw_VF_machine 0xDF 0x01 33) = Inr 0xDF01"
    "fetch (draw_VF_machine 0xD0 0xF1 33) = Inr 0xD0F1"
    by (simp_all add: draw_VF_machine_def fetch_def boot_def Chip8_def initFont_def)
  have m: "(0xDF01 :: u16) AND 0xF000 = 0xD000" "(0xD0F1 :: u16) AND 0xF000 = 0xD000"
    by simp_all
  have d: "opcode_x 0xDF01 = 0xF" "opcode_y 0xDF01 = 0" "opcode_n 0xDF01 = 1"
    "opcode_x 0xD0F1 = 0" "opcode_y 0xD0F1 = 0xF" "opcode_n 0xD0F1 = 1"
    by (simp_all add: opcode_x_def opcode_y_def opcode_n_def)
  have u: "(draw_VF_machine hi lo 33)\<lparr>V := (V (draw_VF_machine hi lo 33))(0xF := 7)\<rparr> =
             draw_VF_machine hi lo 7" for hi lo
    by (simp add: draw_VF_machine_def)
  have k: "V (draw_VF_machine hi lo v) 0 = 10" "PC (draw_VF_machine hi lo v) = 0x200" for hi lo v
    by (simp_all add: draw_VF_machine_def PC_boot)
  show ?thesis
    using draw_ignores_old_VF [OF f(1) m(1), of 0 7] draw_ignores_old_VF [OF f(2) m(2), of 0 7]
    by (simp add: f d u k)
qed

end
